theory Spec2Isabelle
  imports Main
begin

section \<open>Theme values\<close>

text \<open>
  The colour resolver \<^verbatim>\<open>extractColor(value: any, fallback = '#000000')\<close> of the
  health-history screen receives an untyped theme entry. The shapes it distinguishes
  are modelled by a datatype:
  \<^item> \<^verbatim>\<open>null\<close>, \<^verbatim>\<open>undefined\<close> and the booleans;
  \<^item> strings, as lists of 8-bit characters (code units up to U+00FF);
  \<^item> numbers, kept in the form the language standard prints them from (see below);
  \<^item> plain objects, as the list of their own enumerable properties in the order
    \<^verbatim>\<open>for (const k in value)\<close> enumerates them; \<^verbatim>\<open>value[k]\<close> is the first entry
    with that key;
  \<^item> arrays, as the list of their elements (dense, with no property besides the
    indices and \<^verbatim>\<open>length\<close>).
  Values are finite trees: an object that contains itself is not a value of the type.
\<close>

text \<open>
  A number is \<^verbatim>\<open>NaN\<close>, an infinity (the flag says negative), or finite. A finite
  number is kept as in \<^verbatim>\<open>Number::toString\<close> of ECMA-262: the sign, the integer \<open>s\<close>
  whose decimal digits are the shortest that identify the number, and the exponent
  \<open>n\<close>, so that the magnitude is \<open>s * 10 ^ (n - k)\<close> for \<open>k\<close> the number of digits of
  \<open>s\<close>. Both zeros have \<open>s = 0\<close>.
\<close>

datatype jsnumber =
    NaN
  | Infinity bool
  | Finite bool nat int

datatype jsvalue =
    JNull
  | JUndefined
  | JBool bool
  | JString string
  | JNumber jsnumber
  | JObject "(string \<times> jsvalue) list"
  | JArray "jsvalue list"

section \<open>Strings: trimming and the three colour patterns\<close>

text \<open>
  \<^verbatim>\<open>String.prototype.trim\<close> removes white space and line terminators from both
  ends. Among the characters up to U+00FF these are TAB, LF, VT, FF, CR, SP and NBSP.
\<close>

definition isWhiteSpace :: "char \<Rightarrow> bool" where
  "isWhiteSpace c =
     (c \<in> set [CHR 0x09, CHR 0x0A, CHR 0x0B, CHR 0x0C, CHR 0x0D, CHR 0x20, CHR 0xA0])"

definition trim :: "string \<Rightarrow> string" where
  "trim s = rev (dropWhile isWhiteSpace (rev (dropWhile isWhiteSpace s)))"

definition isHexDigit :: "char \<Rightarrow> bool" where
  "isHexDigit c = (c \<in> set ''ABCDEFabcdef0123456789'')"

definition isAsciiLetter :: "char \<Rightarrow> bool" where
  "isAsciiLetter c = (c \<in> set ''abcdefghijklmnopqrstuvwxyzABCDEFGHIJKLMNOPQRSTUVWXYZ'')"

text \<open>
  \<^verbatim>\<open>const isHex = (s: string) => /^#([A-Fa-f0-9]{3,8})$/.test(s?.trim?.() ?? '')\<close>:
  a \<^verbatim>\<open>#\<close> and then three to eight hexadecimal digits, nothing else.
\<close>

definition isHex :: "string \<Rightarrow> bool" where
  "isHex s =
     (case trim s of
        [] \<Rightarrow> False
      | c # ds \<Rightarrow> c = CHR ''#'' \<and> 3 \<le> length ds \<and> length ds \<le> 8 \<and> list_all isHexDigit ds)"

text \<open>
  \<^verbatim>\<open>const isRgb = (s: string) => /^rgba?\(/i.test(s?.trim?.() ?? '')\<close>: the trimmed
  string starts with \<^verbatim>\<open>rgb(\<close> or \<^verbatim>\<open>rgba(\<close>, letters in either case.
\<close>

definition isRgb :: "string \<Rightarrow> bool" where
  "isRgb s =
     (case trim s of
        r # g # b # rest \<Rightarrow>
          r \<in> set ''rR'' \<and> g \<in> set ''gG'' \<and> b \<in> set ''bB'' \<and>
          (case rest of
             [] \<Rightarrow> False
           | c # rest' \<Rightarrow>
               c = CHR ''('' \<or>
               (c \<in> set ''aA'' \<and> (case rest' of [] \<Rightarrow> False | d # _ \<Rightarrow> d = CHR ''('')))
      | _ \<Rightarrow> False)"

text \<open>
  \<^verbatim>\<open>const isColorName = (s: string) => /^[a-zA-Z]+$/.test(s?.trim?.() ?? '')\<close>:
  one or more ASCII letters, nothing else.
\<close>

definition isColorName :: "string \<Rightarrow> bool" where
  "isColorName s = (let t = trim s in t \<noteq> [] \<and> list_all isAsciiLetter t)"

section \<open>Numbers: \<^verbatim>\<open>String(value)\<close>\<close>

fun digitsOf :: "nat \<Rightarrow> string" where
  "digitsOf n =
     (if n < 10 then [''0123456789'' ! n]
      else digitsOf (n div 10) @ [''0123456789'' ! (n mod 10)])"

declare digitsOf.simps [simp del]

text \<open>
  The decimal form of a positive finite number with digits \<open>s\<close> and exponent \<open>n\<close>,
  following the cases of \<^verbatim>\<open>Number::toString\<close>: an integer padded with zeros, a
  decimal point inside the digits, a leading \<^verbatim>\<open>0.\<close> for small fractions, and
  exponential notation otherwise.
\<close>

definition positiveToString :: "nat \<Rightarrow> int \<Rightarrow> string" where
  "positiveToString s n =
     (let ds = digitsOf s; k = int (length ds) in
      if k \<le> n \<and> n \<le> 21 then ds @ replicate (nat (n - k)) (CHR ''0'')
      else if 0 < n \<and> n \<le> 21 then take (nat n) ds @ ''.'' @ drop (nat n) ds
      else if - 6 < n \<and> n \<le> 0 then ''0.'' @ replicate (nat (- n)) (CHR ''0'') @ ds
      else
        (let e = n - 1;
             es = (if e < 0 then ''-'' else ''+'') @ digitsOf (nat \<bar>e\<bar>)
         in if k = 1 then ds @ ''e'' @ es
            else take 1 ds @ ''.'' @ drop 1 ds @ ''e'' @ es))"

fun numberToString :: "jsnumber \<Rightarrow> string" where
  "numberToString NaN = ''NaN''"
| "numberToString (Infinity neg) = (if neg then ''-Infinity'' else ''Infinity'')"
| "numberToString (Finite neg s n) =
     (if s = 0 then ''0'' else (if neg then ''-'' else '''') @ positiveToString s n)"

section \<open>The resolver\<close>

text \<open>
  The fallback parameter is a string for the screen's callers and \<^verbatim>\<open>null\<close> in every
  recursive call (\<^verbatim>\<open>extractColor(value[k], null as any)\<close>), so both the parameter and
  the result are optional strings, \<open>None\<close> standing for \<^verbatim>\<open>null\<close>.
\<close>

definition priorityKeys :: "string list" where
  "priorityKeys =
     [''hex'', ''color'', ''value'', ''main'', ''DEFAULT'', ''default'', ''light'', ''dark'',
      ''primary'']"

text \<open>\<^verbatim>\<open>if (candidate)\<close>: \<^verbatim>\<open>null\<close> and the empty string are falsy.\<close>

definition truthy :: "string option \<Rightarrow> bool" where
  "truthy candidate = (case candidate of None \<Rightarrow> False | Some s \<Rightarrow> s \<noteq> [])"

text \<open>
  The three loops of the resolver have one shape:
  \<^verbatim>\<open>for (...) { const candidate = ...; if (candidate) return candidate; }\<close>.
  \<open>firstCandidate f xs\<close> runs it over \<open>xs\<close>; \<open>Some c\<close> is the early return, \<open>None\<close>
  is the loop running to its end.
\<close>

fun firstCandidate :: "('a \<Rightarrow> string option) \<Rightarrow> 'a list \<Rightarrow> string option" where
  "firstCandidate f [] = None"
| "firstCandidate f (x # xs) =
     (let candidate = f x in if truthy candidate then candidate else firstCandidate f xs)"

lemma firstCandidate_ext:
  "(\<And>x. x \<in> set xs \<Longrightarrow> f x = g x) \<Longrightarrow> firstCandidate f xs = firstCandidate g xs"
  by (induction xs) (simp_all add: Let_def)

lemma firstCandidate_cong [fundef_cong]:
  "xs = ys \<Longrightarrow> (\<And>x. x \<in> set ys \<Longrightarrow> f x = g x) \<Longrightarrow> firstCandidate f xs = firstCandidate g ys"
  using firstCandidate_ext [of ys f g] by simp

lemma size_element: "x \<in> set elems \<Longrightarrow> size x < Suc (size_list size elems)"
  by (induction elems) auto

lemma size_property:
  "p \<in> set props \<Longrightarrow> size (snd p) < Suc (size_list (size_prod (\<lambda>_. 0) size) props)"
  by (induction props) auto

lemma size_lookup:
  "map_of props k = Some x \<Longrightarrow> size x < Suc (size_list (size_prod (\<lambda>_. 0) size) props)"
  using size_property [of "(k, x)" props] by (simp add: map_of_SomeD)

text \<open>
  The resolver, branch by branch as in the source. In the object branch the first loop
  visits the priority keys the object owns, the second every own key (the priority keys
  again among them). For an array no priority key is an own property, the
  \<^verbatim>\<open>for ... in\<close> loop visits the indices in ascending order, and the
  \<^verbatim>\<open>Array.isArray\<close> loop visits the elements once more. A boolean matches none of the
  \<^verbatim>\<open>typeof\<close> tests and reaches the final \<^verbatim>\<open>return fallback\<close>.

  \<open>extractColor\<close> is what the resolver returns when the call stack is deep enough for
  the value; \<open>extractColorOnStack\<close> below adds the stack and the error.
\<close>

function extractColor :: "jsvalue \<Rightarrow> string option \<Rightarrow> string option" where
  "extractColor JNull fallback = fallback"
| "extractColor JUndefined fallback = fallback"
| "extractColor (JString v) fallback =
     (let s = trim v in
      if isHex s \<or> isRgb s \<or> isColorName s \<or> length s > 0 then Some s else fallback)"
| "extractColor (JNumber n) fallback = Some (numberToString n)"
| "extractColor (JObject props) fallback =
     (case firstCandidate
             (\<lambda>k. case map_of props k of None \<Rightarrow> None | Some x \<Rightarrow> extractColor x None)
             priorityKeys of
        Some candidate \<Rightarrow> Some candidate
      | None \<Rightarrow>
          (case firstCandidate
                  (\<lambda>k. case map_of props k of None \<Rightarrow> None | Some x \<Rightarrow> extractColor x None)
                  (map fst props) of
             Some candidate \<Rightarrow> Some candidate
           | None \<Rightarrow> fallback))"
| "extractColor (JArray elems) fallback =
     (case firstCandidate (\<lambda>v. extractColor v None) elems of
        Some candidate \<Rightarrow> Some candidate
      | None \<Rightarrow>
          (case firstCandidate (\<lambda>v. extractColor v None) elems of
             Some candidate \<Rightarrow> Some candidate
           | None \<Rightarrow> fallback))"
| "extractColor (JBool b) fallback = fallback"
  by pat_completeness auto
termination
  by (relation "measure (\<lambda>(v, fallback). size v)")
     (simp_all add: size_lookup size_element)

subsection \<open>Names for the parts of the object branch\<close>

text \<open>
  \<open>resolveKey props k\<close> is one iteration's candidate: the recursive call on
  \<^verbatim>\<open>value[k]\<close> with the fallback \<^verbatim>\<open>null\<close> when the object owns \<open>k\<close>, and nothing
  otherwise. \<open>priorityPass\<close> is the loop over the priority keys, \<open>ownKeysPass\<close> the
  \<^verbatim>\<open>for ... in\<close> loop, \<open>elementsPass\<close> the loop over an array's elements.
\<close>

definition resolveKey :: "(string \<times> jsvalue) list \<Rightarrow> string \<Rightarrow> string option" where
  "resolveKey props k =
     (case map_of props k of None \<Rightarrow> None | Some x \<Rightarrow> extractColor x None)"

definition priorityPass :: "(string \<times> jsvalue) list \<Rightarrow> string option" where
  "priorityPass props = firstCandidate (resolveKey props) priorityKeys"

definition ownKeysPass :: "(string \<times> jsvalue) list \<Rightarrow> string option" where
  "ownKeysPass props = firstCandidate (resolveKey props) (map fst props)"

definition elementsPass :: "jsvalue list \<Rightarrow> string option" where
  "elementsPass elems = firstCandidate (\<lambda>v. extractColor v None) elems"

subsection \<open>The literals a theme value holds\<close>

text \<open>
  What the resolver can extract from a value: its string leaves, trimmed, and its
  number leaves, printed. A string with no white space at either end is \<open>clean\<close>.
\<close>

function themeLiterals :: "jsvalue \<Rightarrow> string list" where
  "themeLiterals JNull = []"
| "themeLiterals JUndefined = []"
| "themeLiterals (JBool b) = []"
| "themeLiterals (JString v) = [trim v]"
| "themeLiterals (JNumber n) = [numberToString n]"
| "themeLiterals (JObject props) = concat (map (\<lambda>p. themeLiterals (snd p)) props)"
| "themeLiterals (JArray elems) = concat (map themeLiterals elems)"
  by pat_completeness auto
termination
  by (relation "measure size") (simp_all add: size_property size_element)

definition clean :: "string \<Rightarrow> bool" where
  "clean r = (r \<noteq> [] \<and> \<not> isWhiteSpace (hd r) \<and> \<not> isWhiteSpace (last r))"

subsection \<open>The call stack\<close>

text \<open>
  Every recursive call of the resolver is a nested activation, one for each level of
  nesting it descends, and the source bounds the depth nowhere. The call stack of the
  runtime admits only so many: \<open>frames\<close> is the number of activations of the resolver
  it still admits (what a leaf calls, \<^verbatim>\<open>trim\<close>, the three pattern tests and
  \<^verbatim>\<open>String\<close>, is taken to fit with the leaf's activation). A call with none left
  raises \<^verbatim>\<open>RangeError\<close>. The resolver has no \<^verbatim>\<open>try\<close>, so an error raised inside a
  loop leaves the loop and the call.
\<close>

datatype jserror = RangeError

text \<open>The candidate loop, where computing a candidate may raise.\<close>

fun firstCandidateOnStack ::
  "('a \<Rightarrow> jserror + string option) \<Rightarrow> 'a list \<Rightarrow> jserror + string option" where
  "firstCandidateOnStack f [] = Inr None"
| "firstCandidateOnStack f (x # xs) =
     (case f x of
        Inl e \<Rightarrow> Inl e
      | Inr candidate \<Rightarrow>
          if truthy candidate then Inr candidate else firstCandidateOnStack f xs)"

text \<open>
  The resolver on a stack of \<open>frames\<close> activations: the branches of \<open>extractColor\<close>,
  each recursive call on one activation less. \<open>Inl\<close> is the error raised, \<open>Inr\<close> the
  value returned.
\<close>

fun extractColorOnStack :: "nat \<Rightarrow> jsvalue \<Rightarrow> string option \<Rightarrow> jserror + string option" where
  "extractColorOnStack 0 v fallback = Inl RangeError"
| "extractColorOnStack (Suc frames) JNull fallback = Inr fallback"
| "extractColorOnStack (Suc frames) JUndefined fallback = Inr fallback"
| "extractColorOnStack (Suc frames) (JString v) fallback =
     (let s = trim v in
      if isHex s \<or> isRgb s \<or> isColorName s \<or> length s > 0 then Inr (Some s)
      else Inr fallback)"
| "extractColorOnStack (Suc frames) (JNumber n) fallback = Inr (Some (numberToString n))"
| "extractColorOnStack (Suc frames) (JObject props) fallback =
     (case firstCandidateOnStack
             (\<lambda>k. case map_of props k of
                    None \<Rightarrow> Inr None
                  | Some x \<Rightarrow> extractColorOnStack frames x None)
             priorityKeys of
        Inl e \<Rightarrow> Inl e
      | Inr (Some candidate) \<Rightarrow> Inr (Some candidate)
      | Inr None \<Rightarrow>
          (case firstCandidateOnStack
                  (\<lambda>k. case map_of props k of
                         None \<Rightarrow> Inr None
                       | Some x \<Rightarrow> extractColorOnStack frames x None)
                  (map fst props) of
             Inl e \<Rightarrow> Inl e
           | Inr (Some candidate) \<Rightarrow> Inr (Some candidate)
           | Inr None \<Rightarrow> Inr fallback))"
| "extractColorOnStack (Suc frames) (JArray elems) fallback =
     (case firstCandidateOnStack (\<lambda>v. extractColorOnStack frames v None) elems of
        Inl e \<Rightarrow> Inl e
      | Inr (Some candidate) \<Rightarrow> Inr (Some candidate)
      | Inr None \<Rightarrow>
          (case firstCandidateOnStack (\<lambda>v. extractColorOnStack frames v None) elems of
             Inl e \<Rightarrow> Inl e
           | Inr (Some candidate) \<Rightarrow> Inr (Some candidate)
           | Inr None \<Rightarrow> Inr fallback))"
| "extractColorOnStack (Suc frames) (JBool b) fallback = Inr fallback"

text \<open>
  The nesting depth of a value: \<open>0\<close> for a leaf, and one more than its deepest entry or
  element for an object or an array. \<open>nested n v\<close> is \<open>v\<close> inside \<open>n\<close> one-element
  arrays.
\<close>

fun deepest :: "nat list \<Rightarrow> nat" where
  "deepest [] = 0"
| "deepest (n # ns) = max n (deepest ns)"

function nestingDepth :: "jsvalue \<Rightarrow> nat" where
  "nestingDepth JNull = 0"
| "nestingDepth JUndefined = 0"
| "nestingDepth (JBool b) = 0"
| "nestingDepth (JString v) = 0"
| "nestingDepth (JNumber n) = 0"
| "nestingDepth (JObject props) = Suc (deepest (map (\<lambda>p. nestingDepth (snd p)) props))"
| "nestingDepth (JArray elems) = Suc (deepest (map nestingDepth elems))"
  by pat_completeness auto
termination
  by (relation "measure size") (simp_all add: size_property size_element)

fun nested :: "nat \<Rightarrow> jsvalue \<Rightarrow> jsvalue" where
  "nested 0 v = v"
| "nested (Suc n) v = JArray [nested n v]"

section \<open>Trimming\<close>

lemma trim_clean:
  assumes ne: "trim s \<noteq> []"
  shows "clean (trim s)"
proof -
  let ?a = "dropWhile isWhiteSpace s"
  let ?b = "dropWhile isWhiteSpace (rev ?a)"
  from ne have b: "?b \<noteq> []" by (simp add: trim_def)
  then have hb: "\<not> isWhiteSpace (hd ?b)" by (rule hd_dropWhile)
  have a: "?a \<noteq> []"
  proof
    assume "?a = []"
    then have "?b = []" by (simp only: rev.simps dropWhile.simps)
    with b show False by simp
  qed
  then have ha: "\<not> isWhiteSpace (hd ?a)" by (rule hd_dropWhile)
  have "hd ?a \<in> set (rev ?a)" using a by simp
  then have "last ?b = last (rev ?a)" using ha by (rule dropWhile_last)
  then have "hd (trim s) = hd ?a" using b by (simp add: trim_def hd_rev last_rev)
  moreover have "last (trim s) = hd ?b" by (simp add: trim_def last_rev)
  ultimately show ?thesis using ne ha hb by (simp add: clean_def)
qed

lemma trim_id:
  assumes "clean s"
  shows "trim s = s"
proof -
  from assms have "dropWhile isWhiteSpace s = s"
    by (simp add: clean_def dropWhile_eq_self_iff)
  moreover from assms have "dropWhile isWhiteSpace (rev s) = rev s"
    by (simp add: clean_def dropWhile_eq_self_iff hd_rev)
  ultimately show ?thesis by (simp add: trim_def)
qed

lemma trim_Nil: "trim [] = []"
  by (simp add: trim_def)

lemma trim_trim: "trim (trim s) = trim s"
  by (cases "trim s = []") (simp_all add: trim_Nil trim_clean trim_id)

lemma isHex_nonempty: "isHex s \<Longrightarrow> trim s \<noteq> []"
  by (auto simp: isHex_def)

lemma isRgb_nonempty: "isRgb s \<Longrightarrow> trim s \<noteq> []"
  by (auto simp: isRgb_def)

lemma isColorName_nonempty: "isColorName s \<Longrightarrow> trim s \<noteq> []"
  by (simp add: isColorName_def Let_def)

lemma looksLikeColor_nonempty:
  "(isHex (trim v) \<or> isRgb (trim v) \<or> isColorName (trim v) \<or> length (trim v) > 0) =
   (trim v \<noteq> [])"
  using isHex_nonempty [of "trim v"] isRgb_nonempty [of "trim v"]
    isColorName_nonempty [of "trim v"]
  by (auto simp: trim_trim)

lemma extractColor_string:
  "extractColor (JString v) fallback = (if trim v \<noteq> [] then Some (trim v) else fallback)"
  by (simp add: Let_def looksLikeColor_nonempty del: length_greater_0_conv)

section \<open>Printed numbers hold no white space\<close>

lemma digit_not_white: "d < 10 \<Longrightarrow> \<not> isWhiteSpace (''0123456789'' ! d)"
proof -
  assume "d < 10"
  then have "d \<in> {0, 1, 2, 3, 4, 5, 6, 7, 8, 9}" by auto
  then show ?thesis by (auto simp: isWhiteSpace_def)
qed

lemma digitsOf_not_white: "\<forall>c \<in> set (digitsOf n). \<not> isWhiteSpace c"
proof (induction n rule: digitsOf.induct)
  case (1 n)
  show ?case
  proof (cases "n < 10")
    case True
    then show ?thesis by (subst digitsOf.simps) (simp add: digit_not_white)
  next
    case False
    with 1 show ?thesis by (subst digitsOf.simps) (simp add: digit_not_white)
  qed
qed

lemma digitsOf_nonempty: "digitsOf n \<noteq> []"
  by (subst digitsOf.simps) simp

lemma positiveToString_not_white: "\<forall>c \<in> set (positiveToString s n). \<not> isWhiteSpace c"
proof -
  have t: "\<And>m c. c \<in> set (take m (digitsOf s)) \<Longrightarrow> \<not> isWhiteSpace c"
    using digitsOf_not_white by (meson in_set_takeD)
  have d: "\<And>m c. c \<in> set (drop m (digitsOf s)) \<Longrightarrow> \<not> isWhiteSpace c"
    using digitsOf_not_white by (meson in_set_dropD)
  have z: "\<not> isWhiteSpace CHR ''0''" "\<not> isWhiteSpace CHR ''.''" "\<not> isWhiteSpace CHR ''e''"
      "\<not> isWhiteSpace CHR ''-''" "\<not> isWhiteSpace CHR ''+''"
    by (simp_all add: isWhiteSpace_def)
  show ?thesis
    unfolding positiveToString_def Let_def
    using t d z digitsOf_not_white by (auto split: if_splits)
qed

lemma positiveToString_nonempty: "positiveToString s n \<noteq> []"
  unfolding positiveToString_def Let_def using digitsOf_nonempty by auto

lemma numberToString_not_white: "\<forall>c \<in> set (numberToString x). \<not> isWhiteSpace c"
  using positiveToString_not_white by (cases x) (auto simp: isWhiteSpace_def)

lemma numberToString_nonempty: "numberToString x \<noteq> []"
  using positiveToString_nonempty by (cases x) auto

lemma numberToString_clean: "clean (numberToString x)"
  using numberToString_not_white [of x] numberToString_nonempty [of x]
  by (simp add: clean_def)

section \<open>The candidate loop\<close>

lemma firstCandidate_Some:
  "firstCandidate f xs = Some c \<Longrightarrow> c \<noteq> [] \<and> (\<exists>x \<in> set xs. f x = Some c)"
  by (induction xs) (auto simp: Let_def truthy_def split: if_splits)

lemma firstCandidate_None:
  "(firstCandidate f xs = None) = (\<forall>x \<in> set xs. \<not> truthy (f x))"
  by (induction xs) (auto simp: Let_def truthy_def split: option.splits)

lemma firstCandidate_skip:
  "\<forall>x \<in> set pre. \<not> truthy (f x) \<Longrightarrow> firstCandidate f (pre @ xs) = firstCandidate f xs"
  by (induction pre) (simp_all add: Let_def)

lemma firstCandidate_find:
  "firstCandidate f xs = (case find (\<lambda>x. truthy (f x)) xs of None \<Rightarrow> None | Some x \<Rightarrow> f x)"
  by (induction xs) (simp_all add: Let_def)

lemma firstCandidate_filter:
  "filter (\<lambda>x. truthy (f x)) xs = y # ys \<Longrightarrow> firstCandidate f xs = f y"
  by (induction xs) (auto simp: Let_def split: if_splits)

section \<open>The object and array branches\<close>

lemma extractColor_object:
  "extractColor (JObject props) fallback =
     (case priorityPass props of
        Some candidate \<Rightarrow> Some candidate
      | None \<Rightarrow>
          (case ownKeysPass props of Some candidate \<Rightarrow> Some candidate | None \<Rightarrow> fallback))"
  unfolding priorityPass_def ownKeysPass_def resolveKey_def [abs_def] extractColor.simps
  by (rule refl)

lemma extractColor_array:
  "extractColor (JArray elems) fallback =
     (case elementsPass elems of Some candidate \<Rightarrow> Some candidate | None \<Rightarrow> fallback)"
  by (simp add: elementsPass_def split: option.splits)

declare extractColor.simps(3,5,6) [simp del]

lemmas resolver_eval =
  extractColor_string extractColor_object extractColor_array
  priorityPass_def ownKeysPass_def elementsPass_def resolveKey_def
  priorityKeys_def truthy_def trim_def isWhiteSpace_def Let_def

lemma extractColor_factor:
  "extractColor v fallback =
     (case extractColor v None of None \<Rightarrow> fallback | Some r \<Rightarrow> Some r)"
  by (cases v)
     (simp_all add: extractColor_string extractColor_object extractColor_array
        split: option.splits)

lemma pass_source:
  assumes "firstCandidate (resolveKey props) ks = Some r"
  shows "\<exists>k x. map_of props k = Some x \<and> extractColor x None = Some r"
proof -
  from assms obtain k where "resolveKey props k = Some r"
    using firstCandidate_Some by fastforce
  then show ?thesis by (auto simp: resolveKey_def split: option.splits)
qed

lemma object_source:
  assumes "extractColor (JObject props) None = Some r"
  shows "\<exists>k x. map_of props k = Some x \<and> extractColor x None = Some r"
proof (cases "priorityPass props")
  case (Some c)
  with assms have "priorityPass props = Some r" by (simp add: extractColor_object)
  then show ?thesis unfolding priorityPass_def by (rule pass_source)
next
  case None
  with assms have "ownKeysPass props = Some r"
    by (simp add: extractColor_object split: option.splits)
  then show ?thesis unfolding ownKeysPass_def by (rule pass_source)
qed

lemma array_source:
  assumes "extractColor (JArray elems) None = Some r"
  shows "\<exists>x \<in> set elems. extractColor x None = Some r"
proof -
  from assms have "elementsPass elems = Some r"
    by (simp add: extractColor_array split: option.splits)
  then show ?thesis unfolding elementsPass_def using firstCandidate_Some by fastforce
qed

lemma extracted_literal:
  "extractColor v None = Some r \<Longrightarrow> clean r \<and> r \<in> set (themeLiterals v)"
proof (induction v arbitrary: r)
  case (JString s)
  then show ?case
    by (auto simp: extractColor_string trim_clean split: if_splits)
next
  case (JNumber n)
  then show ?case by (auto simp: numberToString_clean)
next
  case (JObject props)
  from JObject.prems obtain k x
    where kx: "map_of props k = Some x" and r: "extractColor x None = Some r"
    using object_source by blast
  from kx have mem: "(k, x) \<in> set props" by (rule map_of_SomeD)
  then have "clean r \<and> r \<in> set (themeLiterals x)"
    using JObject.IH [of "(k, x)" x r] r by simp
  moreover have "set (themeLiterals x) \<subseteq> set (themeLiterals (JObject props))"
    using mem by force
  ultimately show ?case by blast
next
  case (JArray elems)
  from JArray.prems obtain x
    where mem: "x \<in> set elems" and r: "extractColor x None = Some r"
    using array_source by blast
  then have "clean r \<and> r \<in> set (themeLiterals x)"
    using JArray.IH [of x r] by simp
  moreover have "set (themeLiterals x) \<subseteq> set (themeLiterals (JArray elems))"
    using mem by auto
  ultimately show ?case by blast
qed simp_all

section \<open>The resolver on a bounded stack\<close>

lemma deepest_bound: "n \<in> set ns \<Longrightarrow> n \<le> deepest ns"
  by (induction ns) auto

lemma nestingDepth_element: "x \<in> set elems \<Longrightarrow> nestingDepth x < nestingDepth (JArray elems)"
  using deepest_bound [of "nestingDepth x" "map nestingDepth elems"] by simp

lemma nestingDepth_lookup:
  assumes "map_of props k = Some x"
  shows "nestingDepth x < nestingDepth (JObject props)"
proof -
  from assms have "(k, x) \<in> set props" by (rule map_of_SomeD)
  then have "nestingDepth x \<in> set (map (\<lambda>p. nestingDepth (snd p)) props)" by force
  then have "nestingDepth x \<le> deepest (map (\<lambda>p. nestingDepth (snd p)) props)"
    by (rule deepest_bound)
  then show ?thesis by simp
qed

lemma firstCandidateOnStack_returns:
  "(\<And>x. x \<in> set xs \<Longrightarrow> f x = Inr (g x)) \<Longrightarrow>
   firstCandidateOnStack f xs = Inr (firstCandidate g xs)"
  by (induction xs) (simp_all add: Let_def)

lemma firstCandidateOnStack_agrees:
  "(\<And>x c. x \<in> set xs \<Longrightarrow> f x = Inr c \<Longrightarrow> c = g x) \<Longrightarrow>
   firstCandidateOnStack f xs = Inr r \<Longrightarrow> r = firstCandidate g xs"
proof (induction xs)
  case Nil
  then show ?case by simp
next
  case (Cons x xs)
  from Cons.prems(2) obtain c where c: "f x = Inr c"
    by (cases "f x") simp_all
  then have g: "c = g x" using Cons.prems(1) by simp
  show ?case
  proof (cases "truthy c")
    case True
    with c g Cons.prems(2) show ?thesis by (simp add: Let_def)
  next
    case False
    with c Cons.prems(2) have "firstCandidateOnStack f xs = Inr r" by simp
    then have "r = firstCandidate g xs" using Cons.IH Cons.prems(1) by simp
    with False g show ?thesis by (simp add: Let_def)
  qed
qed

lemma extractColorOnStack_string:
  "extractColorOnStack (Suc frames) (JString v) fallback = Inr (extractColor (JString v) fallback)"
  by (simp add: Let_def looksLikeColor_nonempty extractColor_string del: length_greater_0_conv)

declare extractColorOnStack.simps(4) [simp del]

text \<open>
  With more activations available than the value is deep, the resolver returns, and
  returns what \<open>extractColor\<close> gives.
\<close>

lemma extractColorOnStack_within:
  "nestingDepth v < frames \<Longrightarrow> extractColorOnStack frames v fallback = Inr (extractColor v fallback)"
proof (induction frames arbitrary: v fallback)
  case 0
  then show ?case by simp
next
  case (Suc frames)
  show ?case
  proof (cases v)
    case (JString s)
    then show ?thesis by (simp add: extractColorOnStack_string)
  next
    case (JObject props)
    have key: "\<And>k. (case map_of props k of
                       None \<Rightarrow> Inr None
                     | Some x \<Rightarrow> extractColorOnStack frames x None) = Inr (resolveKey props k)"
    proof -
      fix k
      show "(case map_of props k of
                None \<Rightarrow> Inr None
              | Some x \<Rightarrow> extractColorOnStack frames x None) = Inr (resolveKey props k)"
      proof (cases "map_of props k")
        case None
        then show ?thesis by (simp add: resolveKey_def)
      next
        case (Some x)
        then have "nestingDepth x < nestingDepth (JObject props)" by (rule nestingDepth_lookup)
        with Suc.prems JObject have "nestingDepth x < frames" by simp
        then have "extractColorOnStack frames x None = Inr (extractColor x None)"
          by (rule Suc.IH)
        with Some show ?thesis by (simp add: resolveKey_def)
      qed
    qed
    have pass: "\<And>ks. firstCandidateOnStack
                  (\<lambda>k. case map_of props k of
                         None \<Rightarrow> Inr None
                       | Some x \<Rightarrow> extractColorOnStack frames x None) ks
                = Inr (firstCandidate (resolveKey props) ks)"
      by (rule firstCandidateOnStack_returns) (rule key)
    show ?thesis
      unfolding JObject extractColorOnStack.simps pass extractColor_object
        priorityPass_def ownKeysPass_def
      by (simp split: option.splits)
  next
    case (JArray elems)
    have "\<And>x. x \<in> set elems \<Longrightarrow> extractColorOnStack frames x None = Inr (extractColor x None)"
    proof -
      fix x assume "x \<in> set elems"
      then have "nestingDepth x < nestingDepth (JArray elems)" by (rule nestingDepth_element)
      with Suc.prems JArray have "nestingDepth x < frames" by simp
      then show "extractColorOnStack frames x None = Inr (extractColor x None)" by (rule Suc.IH)
    qed
    then have pass: "firstCandidateOnStack (\<lambda>v. extractColorOnStack frames v None) elems
                = Inr (firstCandidate (\<lambda>v. extractColor v None) elems)"
      by (rule firstCandidateOnStack_returns)
    show ?thesis
      unfolding JArray extractColorOnStack.simps pass extractColor_array elementsPass_def
      by (simp split: option.splits)
  qed simp_all
qed

text \<open>
  Whatever the stack, a call that returns returns what \<open>extractColor\<close> gives: the
  stack decides whether the resolver returns, never what.
\<close>

lemma extractColorOnStack_agrees:
  "extractColorOnStack frames v fallback = Inr r \<Longrightarrow> r = extractColor v fallback"
proof (induction frames arbitrary: v fallback r)
  case 0
  then show ?case by simp
next
  case (Suc frames)
  show ?case
  proof (cases v)
    case (JString s)
    with Suc.prems show ?thesis by (simp add: extractColorOnStack_string)
  next
    case (JObject props)
    let ?f = "\<lambda>k. case map_of props k of
                     None \<Rightarrow> Inr None
                   | Some x \<Rightarrow> extractColorOnStack frames x None"
    have key: "\<And>k c. ?f k = Inr c \<Longrightarrow> c = resolveKey props k"
      using Suc.IH by (auto simp: resolveKey_def split: option.splits)
    have pass: "\<And>ks c. firstCandidateOnStack ?f ks = Inr c \<Longrightarrow>
                   c = firstCandidate (resolveKey props) ks"
      using key firstCandidateOnStack_agrees [of _ ?f "resolveKey props"] by blast
    from Suc.prems JObject show ?thesis
      by (auto simp: extractColor_object priorityPass_def ownKeysPass_def
            dest!: pass split: sum.splits option.splits)
  next
    case (JArray elems)
    let ?f = "\<lambda>v. extractColorOnStack frames v None"
    have pass: "\<And>c. firstCandidateOnStack ?f elems = Inr c \<Longrightarrow>
                   c = firstCandidate (\<lambda>v. extractColor v None) elems"
      using Suc.IH firstCandidateOnStack_agrees [of elems ?f "\<lambda>v. extractColor v None"] by blast
    from Suc.prems JArray show ?thesis
      by (auto simp: extractColor_array elementsPass_def
            dest!: pass split: sum.splits option.splits)
  qed (use Suc.prems in simp_all)
qed

text \<open>
  A value inside at least as many arrays as the stack admits activations raises.
\<close>

lemma nestingDepth_nested: "nestingDepth (nested n v) = n + nestingDepth v"
  by (induction n) simp_all

lemma extractColorOnStack_overflow:
  "frames \<le> n \<Longrightarrow> extractColorOnStack frames (nested n v) fallback = Inl RangeError"
proof (induction frames arbitrary: n fallback)
  case 0
  then show ?case by simp
next
  case (Suc frames)
  then obtain m where n: "n = Suc m" and m: "frames \<le> m" by (cases n) simp_all
  from m have "extractColorOnStack frames (nested m v) None = Inl RangeError" by (rule Suc.IH)
  then show ?case by (simp add: n)
qed

lemma extractColor_nested:
  assumes "extractColor v None = Some c" and "c \<noteq> []"
  shows "extractColor (nested n v) fallback = Some c"
proof (induction n arbitrary: fallback)
  case 0
  from assms show ?case by (simp add: extractColor_factor [of v fallback])
next
  case (Suc n)
  have "extractColor (nested n v) None = Some c" by (rule Suc.IH)
  with assms(2) show ?case by (simp add: extractColor_array elementsPass_def truthy_def)
qed

section \<open>Properties of the resolver\<close>

subsection \<open>Totality and the shape of the result\<close>

text \<open>
  C1, as amended. For every value (null, undefined, boolean, string, number, object or
  array) whose nesting depth is below the number of nested activations the call stack
  admits, and every fallback string, the resolver returns a string and raises no
  error; the string is the one \<open>extractColor\<close> gives. Termination on every value is
  the termination of \<open>extractColor\<close> and of \<open>extractColorOnStack\<close>.
\<close>

theorem extractColor_within_stack:
  assumes "nestingDepth v < frames"
  shows "\<exists>r. extractColorOnStack frames v (Some fallback) = Inr (Some r) \<and>
             extractColor v (Some fallback) = Some r"
proof -
  obtain r where "extractColor v (Some fallback) = Some r"
    by (cases "extractColor v None")
       (simp_all add: extractColor_factor [of v "Some fallback"])
  with assms show ?thesis by (simp add: extractColorOnStack_within)
qed

theorem extractColor_within_stack_witness:
  "nestingDepth (JObject [(''card'', JArray [JNull, JObject [(''dark'', JString ''navy '')]])]) < 4 \<and>
   (\<exists>r. extractColorOnStack 4
           (JObject [(''card'', JArray [JNull, JObject [(''dark'', JString ''navy '')]])])
           (Some ''#F8FAFC'') = Inr (Some r) \<and>
        extractColor (JObject [(''card'', JArray [JNull, JObject [(''dark'', JString ''navy '')]])])
           (Some ''#F8FAFC'') = Some r)"
proof -
  have d: "nestingDepth (JObject [(''card'', JArray [JNull, JObject [(''dark'', JString ''navy '')]])]) < 4"
    by simp
  from extractColor_within_stack [OF d, of "''#F8FAFC''"] d show ?thesis by simp
qed

text \<open>
  C1 as stated fails on values of finite but great depth. \<^verbatim>\<open>"#abc"\<close> inside 20000
  arrays has nesting depth 20000; on a stack of 20000 activations, and on any smaller
  one, the resolver raises \<^verbatim>\<open>RangeError\<close>; with one activation more it returns
  \<^verbatim>\<open>"#abc"\<close>.
\<close>

theorem deep_nesting_counterexample:
  "nestingDepth (nested 20000 (JString ''#abc'')) = 20000 \<and>
   extractColorOnStack 20000 (nested 20000 (JString ''#abc'')) (Some ''#000000'')
     = Inl RangeError \<and>
   extractColorOnStack 10000 (nested 20000 (JString ''#abc'')) (Some ''#000000'')
     = Inl RangeError \<and>
   extractColorOnStack 20001 (nested 20000 (JString ''#abc'')) (Some ''#000000'')
     = Inr (Some ''#abc'')"
proof -
  have "extractColor (JString ''#abc'') None = Some ''#abc''"
    by (simp add: resolver_eval)
  then have "extractColor (nested 20000 (JString ''#abc'')) (Some ''#000000'') = Some ''#abc''"
    by (rule extractColor_nested) simp
  moreover have "nestingDepth (nested 20000 (JString ''#abc'')) < 20001"
    by (simp add: nestingDepth_nested)
  ultimately have "extractColorOnStack 20001 (nested 20000 (JString ''#abc'')) (Some ''#000000'')
      = Inr (Some ''#abc'')"
    by (simp add: extractColorOnStack_within)
  then show ?thesis by (simp add: nestingDepth_nested extractColorOnStack_overflow)
qed

text \<open>
  C2, as amended. For every value and every non-empty fallback string the result is a
  non-empty string: the fallback itself, or one of the literals the value holds.
\<close>

theorem resolved_nonempty:
  assumes "fallback \<noteq> []"
  shows "\<exists>r. extractColor v (Some fallback) = Some r \<and> r \<noteq> [] \<and>
             (r = fallback \<or> r \<in> set (themeLiterals v))"
proof (cases "extractColor v None")
  case None
  then have "extractColor v (Some fallback) = Some fallback"
    by (simp add: extractColor_factor [of v "Some fallback"])
  with assms show ?thesis by simp
next
  case (Some r)
  then have "extractColor v (Some fallback) = Some r"
    by (simp add: extractColor_factor [of v "Some fallback"])
  moreover from Some have "clean r \<and> r \<in> set (themeLiterals v)" by (rule extracted_literal)
  ultimately show ?thesis by (simp add: clean_def)
qed

theorem resolved_nonempty_witness:
  "''#777777'' \<noteq> [] \<and>
   (\<exists>r. extractColor (JObject [(''shade'', JString '' teal '')]) (Some ''#777777'') = Some r \<and>
        r \<noteq> [] \<and>
        (r = ''#777777'' \<or> r \<in> set (themeLiterals (JObject [(''shade'', JString '' teal '')]))))"
  using resolved_nonempty [of "''#777777''" "JObject [(''shade'', JString '' teal '')]"]
  by simp

text \<open>
  C2 as stated fails for the empty fallback: the resolver hands the fallback back as it
  is, for \<^verbatim>\<open>null\<close> and for a blank string alike.
\<close>

theorem empty_fallback_counterexample:
  "extractColor JNull (Some []) = Some [] \<and> extractColor (JString ''  '') (Some []) = Some []"
  by (simp add: resolver_eval)

text \<open>
  C9. A boolean, \<^verbatim>\<open>true\<close> or \<^verbatim>\<open>false\<close>, resolves to the fallback, whatever the
  fallback string is.
\<close>

theorem boolean_falls_through:
  "extractColor (JBool b) (Some fallback) = Some fallback"
  by simp

theorem boolean_falls_through_witness:
  "extractColor (JBool True) (Some ''#2C7A7B'') = Some ''#2C7A7B'' \<and>
   extractColor (JBool False) (Some ''#2C7A7B'') = Some ''#2C7A7B''"
  using boolean_falls_through [of True "''#2C7A7B''"]
    boolean_falls_through [of False "''#2C7A7B''"]
  by simp

text \<open>
  C10. Whenever the result differs from the fallback it is a non-empty string with no
  white space at its start or its end (so trimming it changes nothing): a trimmed
  string leaf or a printed number.
\<close>

theorem extracted_is_trimmed:
  assumes "extractColor v (Some fallback) = Some r" and "r \<noteq> fallback"
  shows "r \<noteq> [] \<and> \<not> isWhiteSpace (hd r) \<and> \<not> isWhiteSpace (last r) \<and> trim r = r"
proof -
  from assms have "extractColor v None = Some r"
    by (simp add: extractColor_factor [of v "Some fallback"] split: option.splits)
  then have "clean r" using extracted_literal by blast
  then show ?thesis using trim_id by (simp add: clean_def)
qed

theorem extracted_is_trimmed_witness:
  "extractColor (JArray [JString ''   '', JString '' rgb(0, 0, 0) '']) (Some ''#000000'')
     = Some ''rgb(0, 0, 0)'' \<and>
   ''rgb(0, 0, 0)'' \<noteq> ''#000000'' \<and>
   \<not> isWhiteSpace (hd ''rgb(0, 0, 0)'') \<and> \<not> isWhiteSpace (last ''rgb(0, 0, 0)'') \<and>
   trim ''rgb(0, 0, 0)'' = ''rgb(0, 0, 0)''"
proof -
  have r: "extractColor (JArray [JString ''   '', JString '' rgb(0, 0, 0) '']) (Some ''#000000'')
     = Some ''rgb(0, 0, 0)''"
    by (simp add: resolver_eval)
  have d: "''rgb(0, 0, 0)'' \<noteq> ''#000000''" by simp
  from extracted_is_trimmed [OF r d] r d show ?thesis by simp
qed

subsection \<open>Strings\<close>

text \<open>
  C6. A string resolves to its trimmed form whenever that is non-empty, be it a hex
  colour, an \<^verbatim>\<open>rgb(\<close>/\<^verbatim>\<open>rgba(\<close> form in any casing, a colour name or any other
  token, and to the fallback when the trimmed string is empty. The three patterns
  only ever hold of strings whose trimmed form is non-empty.
\<close>

theorem string_resolves_to_trimmed:
  "extractColor (JString s) (Some fallback) =
     (if trim s = [] then Some fallback else Some (trim s)) \<and>
   (isHex s \<or> isRgb s \<or> isColorName s \<longrightarrow> extractColor (JString s) (Some fallback) = Some (trim s))"
  using isHex_nonempty [of s] isRgb_nonempty [of s] isColorName_nonempty [of s]
  by (auto simp: extractColor_string)

theorem string_resolves_to_trimmed_witness:
  "extractColor (JString '' RGBA(0,0,0,0.08)  '') (Some ''#1F2937'') = Some ''RGBA(0,0,0,0.08)'' \<and>
   isRgb '' RGBA(0,0,0,0.08)  '' \<and>
   extractColor (JString ''#a1b2c3ff'') (Some ''#1F2937'') = Some ''#a1b2c3ff'' \<and>
   isHex ''#a1b2c3ff'' \<and>
   extractColor (JString ''tomato '') (Some ''#1F2937'') = Some ''tomato'' \<and>
   isColorName ''tomato '' \<and>
   extractColor (JString ''colors.brand-500'') (Some ''#1F2937'') = Some ''colors.brand-500'' \<and>
   extractColor (JString ''  '') (Some ''#1F2937'') = Some ''#1F2937''"
  using string_resolves_to_trimmed [of "'' RGBA(0,0,0,0.08)  ''" "''#1F2937''"]
    string_resolves_to_trimmed [of "''#a1b2c3ff''" "''#1F2937''"]
    string_resolves_to_trimmed [of "''tomato ''" "''#1F2937''"]
  by (simp add: resolver_eval isRgb_def isHex_def isColorName_def isHexDigit_def isAsciiLetter_def)

subsection \<open>Objects\<close>

text \<open>
  C3. The priority keys are looked up with the fallback suppressed. When every
  priority key before \<open>k\<close> is absent or present with a value that resolves to nothing
  (\<^verbatim>\<open>null\<close>, \<^verbatim>\<open>undefined\<close>, an empty string, ...), and \<open>k\<close> is present with a value that
  resolves to the non-empty \<open>c\<close>, the resolver returns \<open>c\<close>: it has not returned the
  fallback at an earlier key.
\<close>

theorem empty_priority_key_is_passed_over:
  assumes "priorityKeys = earlier @ k # later"
    and "\<forall>k' \<in> set earlier. \<forall>y. map_of props k' = Some y \<longrightarrow>
            extractColor y None = None \<or> extractColor y None = Some []"
    and "map_of props k = Some x"
    and "extractColor x None = Some c" and "c \<noteq> []"
  shows "extractColor (JObject props) fallback = Some c"
proof -
  have "\<forall>k' \<in> set earlier. \<not> truthy (resolveKey props k')"
    using assms(2) by (auto simp: resolveKey_def truthy_def split: option.splits)
  then have "priorityPass props = firstCandidate (resolveKey props) (k # later)"
    by (simp add: priorityPass_def assms(1) firstCandidate_skip)
  also have "\<dots> = Some c"
    using assms(3-5) by (simp add: resolveKey_def truthy_def)
  finally show ?thesis by (simp add: extractColor_object)
qed

theorem empty_priority_key_is_passed_over_witness:
  "priorityKeys = [''hex'', ''color'', ''value''] @ ''main'' # [''DEFAULT'', ''default'', ''light'', ''dark'', ''primary''] \<and>
   extractColor JNull None = None \<and>
   extractColor (JString '''') None = None \<and>
   extractColor JUndefined None = None \<and>
   extractColor (JObject [(''hex'', JNull), (''color'', JString ''''), (''value'', JUndefined),
                          (''main'', JString ''#fff'')]) (Some ''#777777'') = Some ''#fff''"
proof -
  let ?props = "[(''hex'', JNull), (''color'', JString ''''), (''value'', JUndefined),
                 (''main'', JString ''#fff'')]"
  have k: "priorityKeys = [''hex'', ''color'', ''value''] @ ''main'' # [''DEFAULT'', ''default'', ''light'', ''dark'', ''primary'']"
    by (simp add: priorityKeys_def)
  have e: "\<forall>k' \<in> set [''hex'', ''color'', ''value'']. \<forall>y. map_of ?props k' = Some y \<longrightarrow>
            extractColor y None = None \<or> extractColor y None = Some []"
    by (simp add: resolver_eval)
  have m: "map_of ?props ''main'' = Some (JString ''#fff'')" by simp
  have c: "extractColor (JString ''#fff'') None = Some ''#fff''" by (simp add: resolver_eval)
  have n: "''#fff'' \<noteq> []" by simp
  from empty_priority_key_is_passed_over [OF k e m c n, of "Some ''#777777''"] k
  show ?thesis by (simp add: resolver_eval)
qed

text \<open>
  C4, as amended. \<^verbatim>\<open>{ primary: { DEFAULT: "#112233" } }\<close> resolves to
  \<^verbatim>\<open>"#112233"\<close> with any fallback. \<^verbatim>\<open>primary\<close> is itself a priority key, the last of
  the nine, so the loop over the priority keys finds the value; \<^verbatim>\<open>DEFAULT\<close> inside it is
  a priority key too.
\<close>

theorem nested_default_resolves:
  "extractColor (JObject [(''primary'', JObject [(''DEFAULT'', JString ''#112233'')])]) fallback
     = Some ''#112233'' \<and>
   priorityPass [(''primary'', JObject [(''DEFAULT'', JString ''#112233'')])] = Some ''#112233'' \<and>
   last priorityKeys = ''primary'' \<and>
   ''DEFAULT'' \<in> set priorityKeys"
  by (simp add: resolver_eval)

theorem nested_default_resolves_witness:
  "extractColor (JObject [(''primary'', JObject [(''DEFAULT'', JString ''#112233'')])])
     (Some ''#000000'') = Some ''#112233'' \<and>
   priorityPass [(''primary'', JObject [(''DEFAULT'', JString ''#112233'')])] = Some ''#112233'' \<and>
   last priorityKeys = ''primary'' \<and>
   ''DEFAULT'' \<in> set priorityKeys"
  by (rule nested_default_resolves)

text \<open>
  C4 as stated has \<^verbatim>\<open>primary\<close> outside the priority keys and found by the scan of the
  remaining keys. It is a priority key, and the priority loop alone returns the colour.
\<close>

theorem primary_is_priority_key_counterexample:
  "''primary'' \<in> set priorityKeys \<and>
   priorityPass [(''primary'', JObject [(''DEFAULT'', JString ''#112233'')])] = Some ''#112233''"
  by (simp add: resolver_eval)

text \<open>
  C5. When priority keys are present with values that resolve to non-empty results,
  the one that comes first in the priority order gives the result, wherever the keys
  stand in the object; \<^verbatim>\<open>{ hex: "#000", color: "#fff" }\<close> resolves to \<^verbatim>\<open>"#000"\<close>.
\<close>

theorem earliest_priority_key_wins:
  assumes "filter (\<lambda>k. truthy (resolveKey props k)) priorityKeys = k # others"
  shows "extractColor (JObject props) fallback = resolveKey props k \<and> truthy (resolveKey props k)"
proof -
  from assms have p: "priorityPass props = resolveKey props k"
    unfolding priorityPass_def by (rule firstCandidate_filter)
  have "k \<in> set (filter (\<lambda>k. truthy (resolveKey props k)) priorityKeys)"
    by (simp add: assms)
  then have t: "truthy (resolveKey props k)" by simp
  then obtain c where "resolveKey props k = Some c"
    by (auto simp: truthy_def split: option.splits)
  with p t show ?thesis by (simp add: extractColor_object)
qed

theorem earliest_priority_key_wins_witness:
  "filter (\<lambda>k. truthy (resolveKey [(''color'', JString ''#fff''), (''hex'', JString ''#000'')] k))
     priorityKeys = [''hex'', ''color''] \<and>
   extractColor (JObject [(''color'', JString ''#fff''), (''hex'', JString ''#000'')]) (Some ''#777777'')
     = Some ''#000'' \<and>
   extractColor (JObject [(''hex'', JString ''#000''), (''color'', JString ''#fff'')]) (Some ''#777777'')
     = Some ''#000''"
proof -
  have f: "filter (\<lambda>k. truthy (resolveKey [(''color'', JString ''#fff''), (''hex'', JString ''#000'')] k))
     priorityKeys = ''hex'' # [''color'']"
    by (simp add: resolver_eval)
  have g: "filter (\<lambda>k. truthy (resolveKey [(''hex'', JString ''#000''), (''color'', JString ''#fff'')] k))
     priorityKeys = ''hex'' # [''color'']"
    by (simp add: resolver_eval)
  from earliest_priority_key_wins [OF f, of "Some ''#777777''"]
    earliest_priority_key_wins [OF g, of "Some ''#777777''"] f
  show ?thesis by (simp add: resolveKey_def extractColor_string trim_def isWhiteSpace_def)
qed

subsection \<open>Arrays\<close>

text \<open>
  C7. An array resolves to what its first element with a non-empty resolution resolves
  to, the elements taken in order, and to the fallback when there is none;
  \<^verbatim>\<open>["#abc", "#def"]\<close> resolves to \<^verbatim>\<open>"#abc"\<close>.
\<close>

theorem array_first_resolving_element:
  "extractColor (JArray elems) fallback =
     (case find (\<lambda>v. truthy (extractColor v None)) elems of
        None \<Rightarrow> fallback
      | Some v \<Rightarrow> extractColor v None) \<and>
   extractColor (JArray [JString ''#abc'', JString ''#def'']) fallback = Some ''#abc''"
proof -
  have "\<And>v. find (\<lambda>v. truthy (extractColor v None)) elems = Some v \<Longrightarrow>
          \<exists>c. extractColor v None = Some c"
    by (auto simp: find_Some_iff truthy_def split: option.splits)
  then have "extractColor (JArray elems) fallback =
     (case find (\<lambda>v. truthy (extractColor v None)) elems of
        None \<Rightarrow> fallback
      | Some v \<Rightarrow> extractColor v None)"
    by (auto simp: extractColor_array elementsPass_def firstCandidate_find split: option.splits)
  then show ?thesis by (simp add: resolver_eval)
qed

theorem array_first_resolving_element_witness:
  "extractColor (JArray [JNull, JString '' '', JArray [], JNumber (Finite False 42 2), JString ''#def''])
     (Some ''#000000'') = Some ''42''"
  using array_first_resolving_element
    [of "[JNull, JString '' '', JArray [], JNumber (Finite False 42 2), JString ''#def'']"
        "Some ''#000000''"]
  by (simp add: resolver_eval positiveToString_def digitsOf.simps)

subsection \<open>Resolving the result again\<close>

text \<open>
  C8, as amended. Resolving the returned string again, with the same fallback, gives it
  back unchanged exactly when it is not the fallback, or the fallback has no white
  space at either end, or the fallback is white space only.
\<close>

theorem reresolution:
  assumes "extractColor v (Some fallback) = Some r"
  shows "(extractColor (JString r) (Some fallback) = Some r) =
         (r \<noteq> fallback \<or> trim fallback = fallback \<or> trim fallback = [])"
proof (cases "r = fallback")
  case True
  then show ?thesis by (auto simp: extractColor_string)
next
  case False
  with assms have "extractColor v None = Some r"
    by (simp add: extractColor_factor [of v "Some fallback"] split: option.splits)
  then have "clean r" using extracted_literal by blast
  then have "trim r = r" "r \<noteq> []" by (simp_all add: trim_id clean_def)
  with False show ?thesis by (simp add: extractColor_string)
qed

theorem reresolution_witness:
  "extractColor (JObject [(''text'', JString '' navy '')]) (Some ''#1A202C'') = Some ''navy'' \<and>
   extractColor (JString ''navy'') (Some ''#1A202C'') = Some ''navy'' \<and>
   extractColor (JObject []) (Some ''#1A202C'') = Some ''#1A202C'' \<and>
   extractColor (JString ''#1A202C'') (Some ''#1A202C'') = Some ''#1A202C''"
proof -
  have a: "extractColor (JObject [(''text'', JString '' navy '')]) (Some ''#1A202C'') = Some ''navy''"
    by (simp add: resolver_eval)
  have b: "extractColor (JObject []) (Some ''#1A202C'') = Some ''#1A202C''"
    by (simp add: resolver_eval)
  from reresolution [OF a] reresolution [OF b] a b show ?thesis
    by (simp add: trim_def isWhiteSpace_def)
qed

text \<open>
  C8 as stated fails when the fallback itself comes back and has white space around a
  non-empty core: the second pass trims it.
\<close>

theorem untrimmed_fallback_counterexample:
  "extractColor JNull (Some '' #fff'') = Some '' #fff'' \<and>
   extractColor (JString '' #fff'') (Some '' #fff'') = Some ''#fff'' \<and>
   ''#fff'' \<noteq> '' #fff''"
  by (simp add: resolver_eval)

end
